theory Spec2Isabelle
  imports Main
begin

section \<open>Ludolph: the bot of \<open>ludolph/bot.py\<close>\<close>

text \<open>
  A shallow embedding of class \<open>LudolphBot\<close>. Instance attributes are the fields of
  the record \<open>bot\<close>; every method takes the bot and returns the bot it leaves behind,
  together with the calls it made on its collaborators (the XMPP session, the MUC plugin,
  the logger), in the order it made them. A method that changes the bot and can raise
  returns the exception, if any, in front of the bot as it is at the raise, since Python
  does not undo the assignments made before it; the message handlers change nothing of
  the bot and return either the exception or their result.

  Python sets are lists without repetition, in iteration order; the operations below
  keep them so. A dictionary is a map, an \<open>OrderedDict\<close> an association list.
\<close>

subsection \<open>Strings\<close>

text \<open>
  \<open>str.isspace\<close> on the code points below 256; \<open>strip\<close>, \<open>lstrip\<close> and
  \<open>split\<close> without an argument work on these characters.
\<close>

definition isspace :: "char \<Rightarrow> bool" where
  "isspace c = (c \<in> set [CHR 0x09, CHR 0x0A, CHR 0x0B, CHR 0x0C, CHR 0x0D,
     CHR 0x1C, CHR 0x1D, CHR 0x1E, CHR 0x1F, CHR 0x20, CHR 0x85, CHR 0xA0])"

definition lstrip :: "string \<Rightarrow> string" where
  "lstrip s = dropWhile isspace s"

definition strip :: "string \<Rightarrow> string" where
  "strip s = rev (dropWhile isspace (rev (dropWhile isspace s)))"

text \<open>\<open>s.lstrip(chars)\<close>: drops leading characters as long as they occur in \<open>chars\<close>.\<close>

definition lstrip_chars :: "string \<Rightarrow> string \<Rightarrow> string" where
  "lstrip_chars chars s = dropWhile (\<lambda>c. c \<in> set chars) s"

definition startswith :: "string \<Rightarrow> string \<Rightarrow> bool" where
  "startswith s p = (take (length p) s = p)"

text \<open>\<open>s.split(d)\<close> for a one-character separator: never empty, \<open>''.split(',') == ['']\<close>.\<close>

fun split_on :: "char \<Rightarrow> string \<Rightarrow> string list" where
  "split_on d [] = [[]]"
| "split_on d (c # cs) =
     (if c = d then [] # split_on d cs
      else (case split_on d cs of [] \<Rightarrow> [[c]] | w # ws \<Rightarrow> (c # w) # ws))"

text \<open>
  \<open>s.split()\<close>: the maximal runs of non-whitespace characters. \<open>words_acc cur s\<close>
  holds the current run reversed.
\<close>

fun words_acc :: "string \<Rightarrow> string \<Rightarrow> string list" where
  "words_acc cur [] = (if cur = [] then [] else [rev cur])"
| "words_acc cur (c # cs) =
     (if isspace c
      then (if cur = [] then words_acc [] cs else rev cur # words_acc [] cs)
      else words_acc (c # cur) cs)"

definition split_ws :: "string \<Rightarrow> string list" where
  "split_ws s = words_acc [] s"

fun join :: "string \<Rightarrow> string list \<Rightarrow> string" where
  "join sep [] = []"
| "join sep [x] = x"
| "join sep (x # y # ys) = x @ sep @ join sep (y # ys)"

subsection \<open>Sets and ordered dictionaries\<close>

definition add :: "'a \<Rightarrow> 'a list \<Rightarrow> 'a list" where
  "add x xs = (if x \<in> set xs then xs else xs @ [x])"

text \<open>\<open>xs.update(ys)\<close> and \<open>xs.intersection_update(ys)\<close>.\<close>

definition update :: "'a list \<Rightarrow> 'a list \<Rightarrow> 'a list" where
  "update xs ys = fold add ys xs"

definition intersection_update :: "'a list \<Rightarrow> 'a list \<Rightarrow> 'a list" where
  "intersection_update xs ys = filter (\<lambda>x. x \<in> set ys) xs"

definition keys :: "('k \<times> 'v) list \<Rightarrow> 'k list" where
  "keys d = map fst d"

text \<open>\<open>d[k] = v\<close> keeps the place of a key that is there and appends a new one.\<close>

fun od_set :: "'k \<Rightarrow> 'v \<Rightarrow> ('k \<times> 'v) list \<Rightarrow> ('k \<times> 'v) list" where
  "od_set k v [] = [(k, v)]"
| "od_set k v ((k', v') # d) = (if k' = k then (k, v) # d else (k', v') # od_set k v d)"

text \<open>\<open>del d[k]\<close>; both uses in the bot are guarded by \<open>k in d\<close>.\<close>

definition od_del :: "'k \<Rightarrow> ('k \<times> 'v) list \<Rightarrow> ('k \<times> 'v) list" where
  "od_del k d = filter (\<lambda>(k', v'). k' \<noteq> k) d"

subsection \<open>Data\<close>

type_synonym jid = string
type_synonym time = nat

datatype exn = IndexError | KeyError string | TypeError | ValueError | Exception string

datatype fval = FBool bool | FText string

text \<open>A room configuration form: the \<open>value\<close> of each of its fields, by field name.\<close>

type_synonym form = "(string \<times> fval) list"

datatype level = Info | Warning | Error | Critical

text \<open>The calls the bot makes on its collaborators.\<close>

datatype action =
    Log level string
  | LogException exn
  | SendMessage "string option" string string
  | SendPresence string
  | Invite "string option" jid
  | SetRoomConfig "string option" form
  | SetAffiliations "string option" "(string \<times> jid) list"
  | AutoAuthorize jid

text \<open>The persistent store: the two items the bot keeps in it.\<close>

record store =
  stored_invited :: "jid list"
  stored_last_seen :: "jid \<rightharpoonup> time"

datatype cron = Cron "store option"

record bot =
  reloaded :: bool
  muc_ready :: bool
  db :: "store option"
  nick :: string
  sslv3 :: bool
  users :: "jid list"
  admins :: "jid list"
  room :: "string option"
  room_invites :: bool
  room_users :: "jid list"
  room_admins :: "jid list"
  room_users_invited :: "jid list"
  room_users_last_seen :: "jid \<rightharpoonup> time"
  room_form :: "form option"
  webserver :: "(string \<times> int) option"
  cron :: "cron option"
  boundjid_bare :: jid

text \<open>A message stanza, and the \<open>muc\<close> part of a room presence stanza.\<close>

record stanza =
  msg_type :: string
  msg_body :: string
  msg_from :: jid
  msg_mucnick :: string
  msg_mucroom :: string

record presence =
  pres_from :: jid
  muc_jid :: jid
  muc_nick :: string
  muc_role :: string
  muc_affiliation :: string

text \<open>\<open>JID.bare\<close>: the address without its resource.\<close>

definition bare :: "jid \<Rightarrow> jid" where
  "bare j = takeWhile (\<lambda>c. c \<noteq> CHR ''/'') j"

text \<open>\<open>'%s' % x\<close> for a string that may be \<open>None\<close>.\<close>

definition fmt :: "string option \<Rightarrow> string" where
  "fmt x = (case x of None \<Rightarrow> ''None'' | Some v \<Rightarrow> v)"

definition truthy :: "string option \<Rightarrow> bool" where
  "truthy x = (case x of None \<Rightarrow> False | Some v \<Rightarrow> v \<noteq> [])"

subsection \<open>Incoming messages\<close>

text \<open>
  A command of the command table (\<open>ludolph.command\<close>): its bound function either
  raises or returns its output, \<open>None\<close> when it sent its reply by itself.
\<close>

record command =
  cmd_module :: string
  cmd_name :: string
  cmd_fun :: "stanza \<Rightarrow> exn + string option"

text \<open>
  What a message handler reads from outside the bot: the command table's
  \<open>get_command\<close>, the elapsed time as \<open>%g\<close> prints it, and the MUC plugin's
  \<open>getJidProperty(room, nick, 'jid')\<close>.
\<close>

record dispatch =
  get_command :: "string \<Rightarrow> command option"
  cmd_time :: string
  getJidProperty :: "string \<Rightarrow> string \<Rightarrow> jid option"

text \<open>What a message handler returns: \<open>None\<close>, a command's output, or the sent reply.\<close>

datatype response = NoResponse | Output "string option" | Replied string

definition not_understood :: "string \<Rightarrow> string" where
  \<open>not_understood body =
     ''Sorry, I don't understand "'' @ body @ ''"\<newline>Please type "help" for more info''\<close>

text \<open>\<open>LudolphBot.message\<close>. \<open>split()[0]\<close> raises \<open>IndexError\<close> on an empty list.\<close>

definition message :: "dispatch \<Rightarrow> stanza \<Rightarrow> string list \<Rightarrow> exn + response \<times> action list" where
  "message d msg types =
     (if msg_type msg \<notin> set types then Inr (NoResponse, [])
      else (case split_ws (msg_body msg) of
        [] \<Rightarrow> Inl IndexError
      | w # ws \<Rightarrow>
          (case get_command d (strip w) of
            Some cmd \<Rightarrow>
              (case cmd_fun cmd msg of
                Inl e \<Rightarrow> Inl e
              | Inr out \<Rightarrow>
                  Inr (Output out,
                    if truthy out
                    then [Log Info (''Command '' @ cmd_module cmd @ ''.'' @ cmd_name cmd
                            @ '' finished in '' @ cmd_time d @ '' seconds'')]
                    else []))
          | None \<Rightarrow> Inr (Replied (not_understood (msg_body msg)), []))))"

text \<open>\<open>LudolphBot.get_jid\<close>.\<close>

definition get_jid :: "dispatch \<Rightarrow> bot \<Rightarrow> stanza \<Rightarrow> bool \<Rightarrow> jid option" where
  "get_jid d s msg b =
     (let j = (if msg_type msg = ''groupchat'' \<and> truthy (room s)
               then getJidProperty d (msg_mucroom msg) (msg_mucnick msg)
               else Some (msg_from msg))
      in if b \<and> truthy j then map_option bare j else j)"

text \<open>\<open>LudolphBot.muc_message\<close>.\<close>

definition muc_message :: "dispatch \<Rightarrow> bot \<Rightarrow> stanza \<Rightarrow> exn + response \<times> action list" where
  "muc_message d s msg =
     (if \<not> muc_ready s then Inr (NoResponse, [])
      else if msg_mucnick msg = nick s then Inr (NoResponse, [])
      else (let n = nick s @ '':'' in
        if startswith (msg_body msg) n \<and> truthy (get_jid d s msg True)
        then message d (msg\<lparr>msg_body := lstrip (lstrip_chars n (msg_body msg))\<rparr>) [''groupchat'']
        else Inr (NoResponse, [])))"

subsection \<open>Configuration\<close>

text \<open>
  The configuration object is the standard library's parser: its methods are taken as
  they are called, each free to raise. \<open>LudolphDB(dbfile)\<close> opens the persistent
  store; it is passed beside the configuration.
\<close>

record config =
  has_option :: "string \<Rightarrow> string \<Rightarrow> bool"
  cfg_get :: "string \<Rightarrow> string \<Rightarrow> exn + string"
  getboolean :: "string \<Rightarrow> string \<Rightarrow> exn + bool"
  getint :: "string \<Rightarrow> string \<Rightarrow> exn + int"
  cfg_items :: "string \<Rightarrow> exn + (string \<times> string) list"

type_synonym step = "bot \<Rightarrow> exn option \<times> bot"

definition and_then :: "step \<Rightarrow> step \<Rightarrow> step" where
  "and_then f g s = (case f s of (None, s') \<Rightarrow> g s' | (Some e, s') \<Rightarrow> (Some e, s'))"

definition returns :: step where
  "returns s = (None, s)"

text \<open>\<open>LudolphBot._db_load_items\<close>.\<close>

definition db_load_items :: step where
  "db_load_items s =
     (case db s of
        None \<Rightarrow> (Some (Exception ''AttributeError''), s)
      | Some d \<Rightarrow>
          (None, s\<lparr>room_users_invited := update (room_users_invited s) (stored_invited d),
                    room_users_last_seen := room_users_last_seen s ++ stored_last_seen d\<rparr>))"

text \<open>
  Modelled from the spec: \<open>LudolphDBMixin.db_enable\<close> (\<open>ludolph/db.py\<close> is not among
  the sources). The spec has the bot load its two persisted items when the store is
  attached.
\<close>

definition db_enable :: "store \<Rightarrow> bool \<Rightarrow> step" where
  "db_enable d init s = (if init then db_load_items (s\<lparr>db := Some d\<rparr>) else (None, s\<lparr>db := Some d\<rparr>))"

text \<open>\<open>getattr(self, kwd)\<close> for the keywords \<open>read_jid_array\<close> is called with.\<close>

definition getattr_jids :: "bot \<Rightarrow> string \<Rightarrow> jid list" where
  "getattr_jids s kwd =
     (if kwd = ''users'' then users s
      else if kwd = ''admins'' then admins s
      else if kwd = ''room_users'' then room_users s
      else [])"

text \<open>The body of the loop of \<open>read_jid_array\<close>, and \<open>read_jid_array\<close>.\<close>

definition read_jid :: "bot \<Rightarrow> string list \<Rightarrow> string \<Rightarrow> jid list \<Rightarrow> jid list" where
  "read_jid s keywords raw jids =
     (let jid = strip raw in
      if jid = [] then jids
      else if CHR ''@'' \<in> set jid then
        (if startswith jid ''@'' then
           (let kwd = tl jid in
            if kwd \<in> set keywords then update jids (getattr_jids s kwd) else jids)
         else add jid jids)
      else jids)"

definition read_jid_array :: "config \<Rightarrow> bot \<Rightarrow> string \<Rightarrow> string \<Rightarrow> string list \<Rightarrow> exn + jid list" where
  "read_jid_array cfg s section option keywords =
     (if has_option cfg section option then
        (case cfg_get cfg section option of
           Inl e \<Rightarrow> Inl e
         | Inr v \<Rightarrow> Inr (fold (read_jid s keywords) (split_on (CHR '','') (strip v)) []))
      else Inr [])"

text \<open>
  \<open>LudolphBot._load_config\<close>, one definition for each of its paragraphs, in the
  order of the source. Its logger calls change nothing and are left out.
\<close>

definition load_dbfile :: "config \<Rightarrow> (string \<Rightarrow> exn + store) \<Rightarrow> step" where
  "load_dbfile cfg ludolph_db s =
     (if has_option cfg ''global'' ''dbfile'' then
        (case cfg_get cfg ''global'' ''dbfile'' of
           Inl e \<Rightarrow> (Some e, s)
         | Inr dbfile \<Rightarrow>
             (if dbfile \<noteq> [] then
                (case ludolph_db dbfile of
                   Inl e \<Rightarrow> (Some e, s)
                 | Inr d \<Rightarrow> db_enable d True s)
              else (None, s)))
      else (None, s))"

definition load_nick :: "config \<Rightarrow> step" where
  "load_nick cfg s =
     (if has_option cfg ''xmpp'' ''nick'' then
        (case cfg_get cfg ''xmpp'' ''nick'' of
           Inl e \<Rightarrow> (Some e, s)
         | Inr v \<Rightarrow> (let n = strip v in (None, if n \<noteq> [] then s\<lparr>nick := n\<rparr> else s)))
      else (None, s))"

definition load_sslv3 :: "config \<Rightarrow> step" where
  "load_sslv3 cfg s =
     (if has_option cfg ''xmpp'' ''sslv3'' then
        (case getboolean cfg ''xmpp'' ''sslv3'' of
           Inl e \<Rightarrow> (Some e, s)
         | Inr b \<Rightarrow> (None, if b then s\<lparr>sslv3 := True\<rparr> else s))
      else (None, s))"

definition load_users :: "config \<Rightarrow> step" where
  "load_users cfg s =
     (let s1 = s\<lparr>users := []\<rparr> in
      case read_jid_array cfg s1 ''xmpp'' ''users'' [] of
        Inl e \<Rightarrow> (Some e, s1)
      | Inr js \<Rightarrow> (None, s1\<lparr>users := update (users s1) js\<rparr>))"

definition load_admins :: "config \<Rightarrow> step" where
  "load_admins cfg s =
     (let s1 = s\<lparr>admins := []\<rparr> in
      case read_jid_array cfg s1 ''xmpp'' ''admins'' [''users''] of
        Inl e \<Rightarrow> (Some e, s1)
      | Inr js \<Rightarrow> (None, s1\<lparr>admins := update (admins s1) js\<rparr>))"

definition load_room :: "config \<Rightarrow> step" where
  "load_room cfg s =
     (if has_option cfg ''xmpp'' ''room'' then
        (case cfg_get cfg ''xmpp'' ''room'' of
           Inl e \<Rightarrow> (Some e, s)
         | Inr v \<Rightarrow> (None, s\<lparr>room := Some (strip v)\<rparr>))
      else (None, s\<lparr>room := None\<rparr>))"

text \<open>The source asks for the option \<open>enabled\<close> and reads \<open>room_invites\<close>.\<close>

definition load_room_invites :: "config \<Rightarrow> step" where
  "load_room_invites cfg s =
     (if has_option cfg ''xmpp'' ''enabled'' then
        (case getboolean cfg ''xmpp'' ''room_invites'' of
           Inl e \<Rightarrow> (Some e, s)
         | Inr b \<Rightarrow> (None, s\<lparr>room_invites := b\<rparr>))
      else (None, s\<lparr>room_invites := True\<rparr>))"

definition load_room_users :: "config \<Rightarrow> step" where
  "load_room_users cfg s =
     (let s1 = s\<lparr>room_users := []\<rparr> in
      if truthy (room s1) then
        (case read_jid_array cfg s1 ''xmpp'' ''room_users'' [''users'', ''admins''] of
           Inl e \<Rightarrow> (Some e, s1)
         | Inr js \<Rightarrow> (None, s1\<lparr>room_users := update (room_users s1) js\<rparr>))
      else (None, s1))"

definition load_room_admins :: "config \<Rightarrow> step" where
  "load_room_admins cfg s =
     (let s1 = s\<lparr>room_admins := []\<rparr> in
      if truthy (room s1) then
        (case read_jid_array cfg s1 ''xmpp'' ''room_admins'' [''users'', ''admins'', ''room_users''] of
           Inl e \<Rightarrow> (Some e, s1)
         | Inr js \<Rightarrow> (None, s1\<lparr>room_admins := update (room_admins s1) js\<rparr>))
      else (None, s1))"

text \<open>Room users vs. \<open>room_users_invited\<close>.\<close>

definition prune_invited :: step where
  "prune_invited s =
     (if room_users_invited s \<noteq> []
      then (None, s\<lparr>room_users_invited := intersection_update (room_users_invited s) (room_users s)\<rparr>)
      else (None, s))"

definition load_webserver :: "config \<Rightarrow> bool \<Rightarrow> step" where
  "load_webserver cfg init s =
     (if init \<and> webserver s = None then
        (if has_option cfg ''webserver'' ''host'' \<and> has_option cfg ''webserver'' ''port'' then
           (case cfg_get cfg ''webserver'' ''host'' of
              Inl e \<Rightarrow> (Some e, s)
            | Inr h \<Rightarrow>
                (case getint cfg ''webserver'' ''port'' of
                   Inl e \<Rightarrow> (Some e, s)
                 | Inr port \<Rightarrow>
                     (let host = strip h in
                      (None, if host \<noteq> [] \<and> port \<noteq> 0 then s\<lparr>webserver := Some (host, port)\<rparr> else s))))
         else (None, s))
      else (None, s))"

definition load_cron :: "config \<Rightarrow> bool \<Rightarrow> step" where
  "load_cron cfg init s =
     (if init \<and> cron s = None then
        (if has_option cfg ''cron'' ''enabled'' then
           (case getboolean cfg ''cron'' ''enabled'' of
              Inl e \<Rightarrow> (Some e, s)
            | Inr b \<Rightarrow> (None, if b then s\<lparr>cron := Some (Cron (db s))\<rparr> else s))
         else (None, s))
      else (None, s))"

definition reload_cron :: step where
  "reload_cron s =
     (if reloaded s then
        (if cron s \<noteq> None \<and> db s = None then (None, s\<lparr>cron := Some (Cron None)\<rparr>) else (None, s))
      else (None, s))"

definition load_config :: "config \<Rightarrow> (string \<Rightarrow> exn + store) \<Rightarrow> bool \<Rightarrow> step" where
  "load_config cfg ludolph_db init =
     foldr and_then
       [load_dbfile cfg ludolph_db, load_nick cfg, load_sslv3 cfg, load_users cfg,
        load_admins cfg, load_room cfg, load_room_invites cfg, load_room_users cfg,
        load_room_admins cfg, prune_invited, load_webserver cfg init, load_cron cfg init,
        reload_cron]
       returns"

subsection \<open>The chat room\<close>

text \<open>
  What the room handlers read from outside the bot: the clock, the MUC plugin's table
  of the room's occupants (\<open>self.muc.rooms[self.room]\<close>: nick to entry, an entry
  being \<open>None\<close> or holding the occupant's JID), what \<open>getRoomConfig\<close> returns
  (\<open>None\<close>: it raises \<open>ValueError\<close>), and the \<open>IqError\<close> with which
  \<open>setRoomConfig\<close> and the \<open>send\<close> of the member list are answered, if any.
\<close>

datatype iq_error = IqError string string string

record muc_env =
  now :: time
  isoformat :: "time \<Rightarrow> string"
  rooms :: "(string \<times> jid option) list"
  getRoomConfig :: "form option"
  setRoomConfig :: "iq_error option"
  iq_send :: "iq_error option"

definition iq_error_text :: "iq_error \<Rightarrow> string" where
  "iq_error_text e =
     (case e of IqError t c ty \<Rightarrow> t @ '' (condition='' @ c @ '', etype='' @ ty @ '')'')"

text \<open>The items \<open>_room_members\<close> appends to its query, and \<open>LudolphBot._room_members\<close>.\<close>

definition query_items :: "bot \<Rightarrow> (string \<times> jid) list" where
  "query_items s =
     (''owner'', boundjid_bare s) #
     map (\<lambda>jid. (if jid \<in> set (room_admins s) then ''admin'' else ''member'', jid)) (room_users s)"

definition room_members :: "muc_env \<Rightarrow> bot \<Rightarrow> iq_error option \<times> action list" where
  "room_members env s = (iq_send env, [SetAffiliations (room s) (query_items s)])"

text \<open>\<open>form['fields'][k]['value'] = v\<close>: a field the form does not have is a \<open>KeyError\<close>.\<close>

definition set_value :: "string \<Rightarrow> fval \<Rightarrow> form \<Rightarrow> exn + form" where
  "set_value k v f = (if k \<in> set (keys f) then Inr (od_set k v f) else Inl (KeyError k))"

definition set_policy :: "bool \<Rightarrow> bool \<Rightarrow> form \<Rightarrow> exn option \<times> form" where
  "set_policy membersonly by_default f =
     (case set_value ''muc#roomconfig_membersonly'' (FBool membersonly) f of
        Inl e \<Rightarrow> (Some e, f)
      | Inr f1 \<Rightarrow>
          (case set_value ''members_by_default'' (FBool by_default) f1 of
             Inl e \<Rightarrow> (Some e, f1)
           | Inr f2 \<Rightarrow> (None, f2)))"

text \<open>\<open>LudolphBot._room_config\<close>.\<close>

definition room_config :: "muc_env \<Rightarrow> bot \<Rightarrow> exn option \<times> bot \<times> action list" where
  "room_config env s =
     (let a0 = [Log Info (''Getting current configuration for MUC room '' @ fmt (room s))] in
      case getRoomConfig env of
        None \<Rightarrow>
          (None, s, a0 @ [Log Error
             ''Could not get MUC room configuration. Maybe the room is not (properly) initialized.''])
      | Some f \<Rightarrow>
          (case (if room_users s \<noteq> [] then set_policy True False f else set_policy False True f) of
             (Some e, f') \<Rightarrow> (Some e, s\<lparr>room_form := Some f'\<rparr>, a0)
           | (None, f') \<Rightarrow>
               (let s1 = s\<lparr>room_form := Some f'\<rparr> in
                (None, s1,
                 a0 @ [Log Info (''Setting new configuration for MUC room '' @ fmt (room s1)),
                       SetRoomConfig (room s1) f']
                 @ (case setRoomConfig env of
                      None \<Rightarrow> []
                    | Some e \<Rightarrow> [Log Error (''Could not configure MUC room. Error was: '' @ iq_error_text e)])
                 @ [Log Info (''Setting member list for MUC room '' @ fmt (room s1))]
                 @ snd (room_members env s1)
                 @ (case fst (room_members env s1) of
                      None \<Rightarrow> []
                    | Some e \<Rightarrow> [Log Error (''Could not configure MUC room member list. Error was: ''
                                   @ iq_error_text e)])))))"

text \<open>\<open>LudolphBot._is_jid_in_room\<close>.\<close>

definition is_jid_in_room :: "muc_env \<Rightarrow> jid \<Rightarrow> bool" where
  "is_jid_in_room env jid =
     list_ex (\<lambda>(n, entry). case entry of None \<Rightarrow> False | Some j \<Rightarrow> bare j = jid) (rooms env)"

definition update_room_users_last_seen :: "muc_env \<Rightarrow> jid \<Rightarrow> bot \<Rightarrow> bot" where
  "update_room_users_last_seen env jid s =
     s\<lparr>room_users_last_seen := (room_users_last_seen s)(jid \<mapsto> now env)\<rparr>"

definition jid_entered_room :: "muc_env \<Rightarrow> jid \<Rightarrow> bot \<Rightarrow> bot" where
  "jid_entered_room env jid s = update_room_users_last_seen env jid s"

definition jid_left_room :: "muc_env \<Rightarrow> jid \<Rightarrow> bot \<Rightarrow> bot" where
  "jid_left_room env jid s = update_room_users_last_seen env jid s"

text \<open>
  The loop of \<open>muc_online\<close> over \<open>self.room_users\<close>: \<open>check_room_user\<close> is its body,
  \<open>check_room_users\<close> the loop.
\<close>

definition check_room_user :: "muc_env \<Rightarrow> jid \<Rightarrow> bot \<Rightarrow> bot \<times> action list" where
  \<open>check_room_user env user s =
     (if is_jid_in_room env user then
        (update_room_users_last_seen env user s,
         [Log Info (''User "'' @ user @ ''" already in MUC room'')])
      else if Some user \<noteq> room s then
        (let a1 = (case room_users_last_seen s user of
                     Some t \<Rightarrow> [Log Info (''User "'' @ user
                                  @ ''" is not currently present in MUC room, but was last seen ''
                                  @ isoformat env t)]
                   | None \<Rightarrow> [Log Info (''User "'' @ user @ ''" is not present in MUC room'')])
         in
         if room_invites s then
           (if user \<in> set (room_users_invited s) then
              (s, a1 @ [Log Info (''User "'' @ user @ ''" was already invited to MUC room'')])
            else
              (s\<lparr>room_users_invited := add user (room_users_invited s)\<rparr>,
               a1 @ [Log Info (''Inviting "'' @ user @ ''" to MUC room''), Invite (room s) user]))
         else (s, a1))
      else (s, []))\<close>

fun check_room_users :: "muc_env \<Rightarrow> jid list \<Rightarrow> bot \<Rightarrow> bot \<times> action list" where
  "check_room_users env [] s = (s, [])"
| "check_room_users env (user # rest) s =
     (case check_room_user env user s of
        (s1, a1) \<Rightarrow> (case check_room_users env rest s1 of (s2, a2) \<Rightarrow> (s2, a1 @ a2)))"

definition presence_text :: "presence \<Rightarrow> string \<Rightarrow> string" where
  \<open>presence_text p what =
     ''User "'' @ muc_jid p @ ''" with nick "'' @ muc_nick p @ ''", role "'' @ muc_role p
     @ ''" and affiliation "'' @ muc_affiliation p @ ''" is '' @ what @ '' MUC room''\<close>

text \<open>\<open>LudolphBot.muc_online\<close>.\<close>

definition muc_online :: "muc_env \<Rightarrow> bot \<Rightarrow> presence \<Rightarrow> exn option \<times> bot \<times> action list" where
  "muc_online env s p =
     (if pres_from p = fmt (room s) @ ''/'' @ nick s then
        (case room_config env s of
           (Some e, s1, a1) \<Rightarrow> (Some e, s1, a1)
         | (None, s1, a1) \<Rightarrow>
             (let a2 = [SendMessage (room s1) (nick s1 @ '' is here!'') ''groupchat''];
                  s2 = s1\<lparr>muc_ready := True\<rparr>;
                  a3 = [SendPresence (pres_from p),
                        Log Info (''People in MUC room: '' @ join '', '' (keys (rooms env)))]
              in case check_room_users env (room_users s2) s2 of
                   (s3, a4) \<Rightarrow> (None, s3, a1 @ a2 @ a3 @ a4)))
      else
        (None, jid_entered_room env (muc_jid p) s,
         [Log Info (presence_text p ''joining''),
          SendMessage (Some (bare (pres_from p))) (''Hello '' @ muc_nick p @ ''!'') ''groupchat'']))"

text \<open>\<open>LudolphBot.muc_offline\<close>.\<close>

definition muc_offline :: "muc_env \<Rightarrow> bot \<Rightarrow> presence \<Rightarrow> exn option \<times> bot \<times> action list" where
  "muc_offline env s p =
     (None, jid_left_room env (muc_jid p) s,
      [Log Info (presence_text p ''leaving''),
       SendMessage (Some (bare (pres_from p))) (''Bye bye '' @ muc_nick p) ''groupchat''])"

text \<open>
  \<open>LudolphBot._handle_new_subscription\<close>; \<open>AutoAuthorize\<close> is the call of the
  method it overrides.
\<close>

definition handle_new_subscription :: "bot \<Rightarrow> jid \<Rightarrow> action list" where
  \<open>handle_new_subscription s user =
     (if users s = [] \<or> user \<in> set (users s) then
        [Log Info (''Allowing user "'' @ user @ ''" to auto subscribe''), AutoAuthorize user]
      else [Log Warning (''User "'' @ user @ ''" is not allowed to subscribe'')])\<close>

subsection \<open>Plugins\<close>

text \<open>
  An element of the list \<open>plugins\<close> handed to the bot: its configuration section, its
  module and its class. The constructor is called with the bot, the items of the section
  and \<open>reinit\<close>; it is a function of the last two here, and either raises an
  \<open>Exception\<close> or returns the plugin object. The type of the elements is declared
  outside these sources, so \<open>plugin_eq p k\<close> stands for the comparison that
  \<open>k in plugins\<close> makes between a module name \<open>k\<close> and the element \<open>p\<close>.
\<close>

record 'p plugin =
  plugin_name :: string
  plugin_module :: string
  plugin_cls :: "(string \<times> string) list \<Rightarrow> bool \<Rightarrow> exn + 'p"
  plugin_eq :: "string \<Rightarrow> bool"

text \<open>The registry \<open>PLUGINS\<close>: module name to the bot itself or to a plugin object.\<close>

datatype 'p entry = Bot | Plugin 'p

type_synonym 'p registry = "(string \<times> 'p entry) list"

text \<open>\<open>__name__\<close> of \<open>ludolph/bot.py\<close>.\<close>

definition bot_module :: string where
  "bot_module = ''ludolph.bot''"

text \<open>
  What the end of \<open>_load_plugins\<close> prints: the registered commands, web hooks and
  cron jobs, each list empty when nothing is registered.
\<close>

record report =
  commands_display :: "string list"
  webhooks_display :: "string list"
  cronjobs_display :: "string list"

text \<open>
  The loop of a reload over the enabled plugins. With \<open>plugins = None\<close> the test
  \<open>enabled_plugin not in plugins\<close> is a \<open>TypeError\<close>.
\<close>

fun disable_plugins :: "'p plugin list option \<Rightarrow> string list \<Rightarrow> 'p registry
    \<Rightarrow> exn option \<times> 'p registry \<times> action list" where
  "disable_plugins plugins [] reg = (None, reg, [])"
| "disable_plugins plugins (enabled_plugin # rest) reg =
     (if enabled_plugin = bot_module then disable_plugins plugins rest reg
      else (case plugins of
          None \<Rightarrow> (Some TypeError, reg, [])
        | Some ps \<Rightarrow>
            (if list_ex (\<lambda>p. plugin_eq p enabled_plugin) ps
             then disable_plugins plugins rest reg
             else (case disable_plugins plugins rest (od_del enabled_plugin reg) of
                     (e, reg', a) \<Rightarrow> (e, reg', Log Info (''Disabling plugin: '' @ enabled_plugin) # a)))))"

text \<open>The body of the loop over \<open>plugins\<close>, and the loop.\<close>

definition construct :: "config \<Rightarrow> 'p plugin \<Rightarrow> bool \<Rightarrow> exn + 'p" where
  "construct cfg p reinit =
     (case cfg_items cfg (plugin_name p) of
        Inl e \<Rightarrow> Inl e
      | Inr c \<Rightarrow> plugin_cls p c reinit)"

definition load_plugin :: "config \<Rightarrow> bool \<Rightarrow> 'p plugin \<Rightarrow> 'p registry \<Rightarrow> 'p registry \<times> action list" where
  "load_plugin cfg init p reg =
     (let modname = plugin_module p in
      case (if init \<or> modname \<notin> set (keys reg)
            then (reg, False, [Log Info (''Initializing plugin: '' @ modname)])
            else (od_del modname reg, True, [Log Info (''Reloading plugin: '' @ modname)])) of
        (reg1, reinit, a1) \<Rightarrow>
          (case construct cfg p reinit of
             Inl ex \<Rightarrow>
               (reg1, a1 @ [Log Critical (''Could not load plugin: '' @ modname), LogException ex])
           | Inr obj \<Rightarrow> (od_set modname (Plugin obj) reg1, a1)))"

fun init_plugins :: "config \<Rightarrow> bool \<Rightarrow> 'p plugin list \<Rightarrow> 'p registry \<Rightarrow> 'p registry \<times> action list" where
  "init_plugins cfg init [] reg = (reg, [])"
| "init_plugins cfg init (p # ps) reg =
     (case load_plugin cfg init p reg of
        (reg1, a1) \<Rightarrow> (case init_plugins cfg init ps reg1 of (reg2, a2) \<Rightarrow> (reg2, a1 @ a2)))"

definition report_log :: "report \<Rightarrow> bot \<Rightarrow> action list" where
  "report_log r s =
     [if commands_display r \<noteq> []
      then Log Info (''Registered commands:\<newline>'' @ join ''\<newline>'' (commands_display r) @ ''\<newline>'')
      else Log Warning ''NO commands registered'',
      if webserver s \<noteq> None then
        (if webhooks_display r \<noteq> []
         then Log Info (''Registered webhooks:\<newline>'' @ join ''\<newline>'' (webhooks_display r) @ ''\<newline>'')
         else Log Warning ''NO webhooks registered'')
      else Log Warning ''Web server support disabled - webhooks will not work'',
      if cron s \<noteq> None then
        (if cronjobs_display r \<noteq> []
         then Log Info (''Registered cron jobs:\<newline>'' @ join ''\<newline>'' (cronjobs_display r) @ ''\<newline>'')
         else Log Warning ''NO cron jobs registered'')
      else Log Warning ''Cron support disabled - cron jobs will not work'']"

text \<open>\<open>LudolphBot._load_plugins\<close>.\<close>

definition load_plugins :: "config \<Rightarrow> report \<Rightarrow> bot \<Rightarrow> 'p plugin list option \<Rightarrow> bool \<Rightarrow> 'p registry
    \<Rightarrow> exn option \<times> 'p registry \<times> action list" where
  "load_plugins cfg rep s plugins init reg =
     (case (if init then (None, [(bot_module, Bot)], [])
            else disable_plugins plugins (keys reg) reg) of
        (Some e, reg1, a1) \<Rightarrow> (Some e, reg1, a1)
      | (None, reg1, a1) \<Rightarrow>
          (case (case plugins of
                   None \<Rightarrow> (reg1, [])
                 | Some ps \<Rightarrow> init_plugins cfg init ps reg1) of
             (reg2, a2) \<Rightarrow> (None, reg2, a1 @ a2 @ report_log rep s)))"

subsection \<open>Room events\<close>

text \<open>
  The room's presence events as the session delivers them, one handler call each; an
  event finds the bot as the handler before it left it, raised or not.
\<close>

datatype room_event = Online muc_env presence | Offline muc_env presence

fun handle_room_event :: "room_event \<Rightarrow> bot \<Rightarrow> bot" where
  "handle_room_event (Online env p) s = fst (snd (muc_online env s p))"
| "handle_room_event (Offline env p) s = fst (snd (muc_offline env s p))"

definition handle_room_events :: "room_event list \<Rightarrow> bot \<Rightarrow> bot" where
  "handle_room_events evs s = fold handle_room_event evs s"

subsection \<open>Example values\<close>

text \<open>
  The class attributes and \<open>__init__\<close> before \<open>_load_config\<close>; a configuration with
  a room, two users, one admin and a room member more; the bot at a reload of it, with the
  invitation of a user who has left the configuration; the bot after that reload; a room
  in which only the bot and alice are present.
\<close>

definition initial :: "jid \<Rightarrow> bot" where
  "initial me =
     \<lparr>reloaded = False, muc_ready = False, db = None, nick = ''Ludolph'', sslv3 = False,
      users = [], admins = [], room = None, room_invites = True, room_users = [],
      room_admins = [], room_users_invited = [], room_users_last_seen = Map.empty,
      room_form = None, webserver = None, cron = None, boundjid_bare = me\<rparr>"

definition example_config :: config where
  "example_config =
     \<lparr>has_option = (\<lambda>section option. section = ''xmpp''
         \<and> option \<in> set [''users'', ''admins'', ''room'', ''room_users'', ''room_admins'']),
      cfg_get = (\<lambda>section option.
         if section = ''xmpp'' \<and> option = ''users'' then Inr ''alice@example.com, bob@example.com''
         else if section = ''xmpp'' \<and> option = ''admins'' then Inr ''alice@example.com''
         else if section = ''xmpp'' \<and> option = ''room'' then Inr ''ops@conference.example.com''
         else if section = ''xmpp'' \<and> option = ''room_users'' then Inr ''@users, carol@example.com''
         else if section = ''xmpp'' \<and> option = ''room_admins'' then Inr ''@admins''
         else Inl (Exception ''NoOptionError'')),
      getboolean = (\<lambda>section option. Inl (Exception ''NoOptionError'')),
      getint = (\<lambda>section option. Inl (Exception ''NoOptionError'')),
      cfg_items = (\<lambda>section. if section = ''zabbix'' \<or> section = ''base'' then Inr []
                               else Inl (Exception ''NoSectionError''))\<rparr>"

definition no_db :: "string \<Rightarrow> exn + store" where
  "no_db dbfile = Inl (Exception ''IOError'')"

definition stale :: bot where
  "stale = (initial ''ludolph@example.com'')
     \<lparr>reloaded := True, room_users_invited := [''dave@example.com'', ''bob@example.com'']\<rparr>"

definition loaded :: bot where
  "loaded =
     \<lparr>reloaded = True, muc_ready = False, db = None, nick = ''Ludolph'', sslv3 = False,
      users = [''alice@example.com'', ''bob@example.com''], admins = [''alice@example.com''],
      room = Some ''ops@conference.example.com'', room_invites = True,
      room_users = [''alice@example.com'', ''bob@example.com'', ''carol@example.com''],
      room_admins = [''alice@example.com''], room_users_invited = [''bob@example.com''],
      room_users_last_seen = Map.empty, room_form = None, webserver = None, cron = None,
      boundjid_bare = ''ludolph@example.com''\<rparr>"

definition misconfigured :: bot where
  "misconfigured = loaded\<lparr>room_admins := [''alice@example.com'', ''erin@example.com'']\<rparr>"

definition example_env :: muc_env where
  "example_env =
     \<lparr>now = 1000, isoformat = (\<lambda>t. ''2015-06-01T12:00:00''),
      rooms = [(''Ludolph'', Some ''ludolph@example.com/bot''),
               (''alice'', Some ''alice@example.com/home'')],
      getRoomConfig = Some [(''muc#roomconfig_membersonly'', FBool False),
                            (''members_by_default'', FBool True)],
      setRoomConfig = None, iq_send = None\<rparr>"

definition own_presence :: presence where
  "own_presence =
     \<lparr>pres_from = ''ops@conference.example.com/Ludolph'', muc_jid = ''ludolph@example.com/bot'',
      muc_nick = ''Ludolph'', muc_role = ''moderator'', muc_affiliation = ''owner''\<rparr>"

definition alice_presence :: presence where
  "alice_presence =
     \<lparr>pres_from = ''ops@conference.example.com/alice'', muc_jid = ''alice@example.com/home'',
      muc_nick = ''alice'', muc_role = ''participant'', muc_affiliation = ''admin''\<rparr>"

definition help_cmd :: command where
  "help_cmd = \<lparr>cmd_module = ''ludolph.plugins.base'', cmd_name = ''help'',
     cmd_fun = (\<lambda>m. Inr (Some ''usage''))\<rparr>"

definition example_table :: dispatch where
  "example_table =
     \<lparr>get_command = (\<lambda>w. if w = ''help'' then Some help_cmd else None), cmd_time = ''0.01'',
      getJidProperty = (\<lambda>r n. if n = ''alice'' then Some ''alice@example.com/home'' else None)\<rparr>"

definition example_plugins :: "string plugin list" where
  "example_plugins =
     [\<lparr>plugin_name = ''zabbix'', plugin_module = ''ludolph.plugins.zabbix'',
       plugin_cls = (\<lambda>c r. Inl (Exception ''connection refused'')),
       plugin_eq = (\<lambda>k. k = ''ludolph.plugins.zabbix'')\<rparr>,
      \<lparr>plugin_name = ''base'', plugin_module = ''ludolph.plugins.base'',
       plugin_cls = (\<lambda>c r. Inr ''Base''),
       plugin_eq = (\<lambda>k. k = ''ludolph.plugins.base'')\<rparr>]"

definition example_report :: report where
  "example_report = \<lparr>commands_display = [''help''], webhooks_display = [], cronjobs_display = []\<rparr>"

section \<open>Properties\<close>

subsection \<open>Sets and ordered dictionaries\<close>

lemma set_add: "set (add x xs) = insert x (set xs)"
  by (auto simp: add_def)

lemma distinct_add: "distinct xs \<Longrightarrow> distinct (add x xs)"
  by (simp add: add_def)

lemma set_update: "set (update xs ys) = set xs \<union> set ys"
  unfolding update_def by (induction ys arbitrary: xs) (auto simp: set_add)

lemma distinct_update: "distinct xs \<Longrightarrow> distinct (update xs ys)"
  unfolding update_def by (induction ys arbitrary: xs) (auto simp: distinct_add)

lemma keys_dom: "set (keys d) = dom (map_of d)"
  by (simp add: keys_def dom_map_of_conv_image_fst)

lemma map_of_od_set: "map_of (od_set k v d) = (map_of d)(k \<mapsto> v)"
  by (induction d) auto

lemma map_of_od_del: "map_of (od_del k d) = (map_of d)(k := None)"
  by (induction d) (auto simp: od_del_def)

lemma keys_od_set: "set (keys (od_set k v d)) = insert k (set (keys d))"
  by (simp add: keys_dom map_of_od_set)

lemma keys_od_del: "set (keys (od_del k d)) = set (keys d) - {k}"
  by (simp add: keys_dom map_of_od_del)

subsection \<open>The examples, evaluated\<close>

lemmas example_defs = loaded_def example_env_def own_presence_def alice_presence_def

lemmas online_defs = muc_online_def fmt_def room_config_def
      set_policy_def set_value_def keys_def room_members_def query_items_def Let_def
      check_room_user_def is_jid_in_room_def bare_def update_room_users_last_seen_def add_def
      jid_entered_room_def

lemma load_example: "load_config example_config no_db False stale = (None, loaded)"
  by (simp add: load_config_def and_then_def returns_def load_dbfile_def load_nick_def
      load_sslv3_def load_users_def load_admins_def load_room_def load_room_invites_def
      load_room_users_def load_room_admins_def prune_invited_def load_webserver_def
      load_cron_def reload_cron_def example_config_def stale_def initial_def loaded_def
      read_jid_array_def read_jid_def strip_def isspace_def startswith_def add_def update_def
      getattr_jids_def truthy_def intersection_update_def Let_def)

lemma online_example:
  "room_users_invited (fst (snd (muc_online example_env loaded own_presence)))
     = [''bob@example.com'', ''carol@example.com'']"
  by (simp add: muc_online_def loaded_def example_env_def own_presence_def fmt_def room_config_def
      set_policy_def set_value_def keys_def room_members_def query_items_def Let_def
      check_room_user_def is_jid_in_room_def bare_def update_room_users_last_seen_def add_def)

subsection \<open>Loading the configuration\<close>

lemma and_then_None:
  "and_then f g s = (None, s') \<longleftrightarrow> (\<exists>s1. f s = (None, s1) \<and> g s1 = (None, s'))"
  by (cases "f s") (auto simp: and_then_def split: option.splits)

lemma prune_invited_inv: "prune_invited s = (e, s') \<Longrightarrow> set (room_users_invited s') \<subseteq> set (room_users s')"
  by (auto simp: prune_invited_def intersection_update_def split: if_splits)

lemma prune_invited_frame: "prune_invited s = (e, s') \<Longrightarrow> room_users s' = room_users s"
  by (auto simp: prune_invited_def split: if_splits)

lemma load_room_users_distinct:
  "load_room_users cfg s = (None, s') \<Longrightarrow> distinct (room_users s')"
  by (auto simp: load_room_users_def Let_def distinct_update split: if_splits sum.splits)

lemma load_room_admins_frame:
  "load_room_admins cfg s = (e, s') \<Longrightarrow> room_users s' = room_users s"
  by (auto simp: load_room_admins_def Let_def split: if_splits sum.splits)

lemma load_webserver_frame:
  "load_webserver cfg init s = (e, s') \<Longrightarrow> room_users_invited s' = room_users_invited s \<and> room_users s' = room_users s"
  by (auto simp: load_webserver_def Let_def split: if_splits sum.splits)

lemma load_cron_frame:
  "load_cron cfg init s = (e, s') \<Longrightarrow> room_users_invited s' = room_users_invited s \<and> room_users s' = room_users s"
  by (auto simp: load_cron_def split: if_splits sum.splits)

lemma reload_cron_frame:
  "reload_cron s = (e, s') \<Longrightarrow> room_users_invited s' = room_users_invited s \<and> room_users s' = room_users s"
  by (auto simp: reload_cron_def split: if_splits)

lemma load_config_invited:
  assumes "load_config cfg ludolph_db init s = (None, s')"
  shows "set (room_users_invited s') \<subseteq> set (room_users s')"
proof -
  from assms obtain s9 s10 s11 s12 where
    p: "prune_invited s9 = (None, s10)" and
    w: "load_webserver cfg init s10 = (None, s11)" and
    c: "load_cron cfg init s11 = (None, s12)" and
    r: "reload_cron s12 = (None, s')"
    by (auto simp: load_config_def and_then_None returns_def)
  from prune_invited_inv[OF p] load_webserver_frame[OF w] load_cron_frame[OF c] reload_cron_frame[OF r]
  show ?thesis by simp
qed

lemma load_config_distinct_room_users:
  assumes "load_config cfg ludolph_db init s = (None, s')"
  shows "distinct (room_users s')"
proof -
  from assms obtain s7 s8 s9 s10 s11 s12 where
    u: "load_room_users cfg s7 = (None, s8)" and
    a: "load_room_admins cfg s8 = (None, s9)" and
    p: "prune_invited s9 = (None, s10)" and
    w: "load_webserver cfg init s10 = (None, s11)" and
    c: "load_cron cfg init s11 = (None, s12)" and
    r: "reload_cron s12 = (None, s')"
    by (auto simp: load_config_def and_then_None returns_def)
  from load_room_users_distinct[OF u] load_room_admins_frame[OF a] prune_invited_frame[OF p]
    load_webserver_frame[OF w] load_cron_frame[OF c] reload_cron_frame[OF r]
  show ?thesis by simp
qed

subsection \<open>The room handlers\<close>

lemma room_config_frame:
  "room_config env s = (e, s', a) \<Longrightarrow> s' = s \<or> (\<exists>f. s' = s\<lparr>room_form := Some f\<rparr>)"
  by (auto simp: room_config_def Let_def split: option.splits if_splits prod.splits)

lemma room_config_fields:
  "room_config env s = (e, s', a) \<Longrightarrow>
     room_users s' = room_users s \<and> room s' = room s \<and> room_invites s' = room_invites s
     \<and> room_users_invited s' = room_users_invited s \<and> room_admins s' = room_admins s"
  using room_config_frame[of env s e s' a] by auto

lemma room_config_no_invite: "room_config env s = (e, s', a) \<Longrightarrow> Invite r u \<notin> set a"
  by (auto simp: room_config_def Let_def room_members_def split: option.splits if_splits prod.splits)

lemma check_room_user_frame:
  "check_room_user env u s = (s', a) \<Longrightarrow>
     room_users s' = room_users s \<and> room s' = room s \<and> room_invites s' = room_invites s
     \<and> room_admins s' = room_admins s"
  by (auto simp: check_room_user_def update_room_users_last_seen_def Let_def split: if_splits)

lemma check_room_user_invited:
  "check_room_user env u s = (s', a) \<Longrightarrow>
     set (room_users_invited s') = set (room_users_invited s) \<union> {v. Invite (room s) v \<in> set a}"
  by (auto simp: check_room_user_def update_room_users_last_seen_def Let_def set_add
      split: if_splits option.splits)

lemma check_room_user_invites:
  "check_room_user env u s = (s', a) \<Longrightarrow> Invite r v \<in> set a \<Longrightarrow>
     v = u \<and> r = room s \<and> \<not> is_jid_in_room env u \<and> u \<notin> set (room_users_invited s)"
  by (auto simp: check_room_user_def update_room_users_last_seen_def Let_def
      split: if_splits option.splits)

lemma check_room_user_count:
  "check_room_user env u s = (s', a) \<Longrightarrow> count_list a (Invite r v) \<le> 1"
  by (auto simp: check_room_user_def update_room_users_last_seen_def Let_def
      split: if_splits option.splits)

lemma check_room_users_frame:
  "check_room_users env us s = (s', a) \<Longrightarrow>
     room_users s' = room_users s \<and> room s' = room s \<and> room_invites s' = room_invites s
     \<and> room_admins s' = room_admins s"
proof (induction us arbitrary: s s' a)
  case Nil
  then show ?case by simp
next
  case (Cons u us)
  obtain s1 a1 where 1: "check_room_user env u s = (s1, a1)" by (cases "check_room_user env u s")
  obtain s2 a2 where 2: "check_room_users env us s1 = (s2, a2)" by (cases "check_room_users env us s1")
  from Cons.prems 1 2 have "s' = s2" by simp
  with Cons.IH[OF 2] check_room_user_frame[OF 1] show ?case by simp
qed

lemma check_room_users_invites:
  "check_room_users env us s = (s', a) \<Longrightarrow> Invite r v \<in> set a \<Longrightarrow>
     v \<in> set us \<and> r = room s \<and> \<not> is_jid_in_room env v \<and> v \<notin> set (room_users_invited s)"
proof (induction us arbitrary: s s' a)
  case Nil
  then show ?case by simp
next
  case (Cons u us)
  obtain s1 a1 where 1: "check_room_user env u s = (s1, a1)" by (cases "check_room_user env u s")
  obtain s2 a2 where 2: "check_room_users env us s1 = (s2, a2)" by (cases "check_room_users env us s1")
  from Cons.prems 1 2 have a: "a = a1 @ a2" by simp
  show ?case
  proof (cases "Invite r v \<in> set a1")
    case True
    from check_room_user_invites[OF 1 True] show ?thesis by simp
  next
    case False
    with a Cons.prems(2) have "Invite r v \<in> set a2" by simp
    from Cons.IH[OF 2 this] check_room_user_frame[OF 1] check_room_user_invited[OF 1]
    show ?thesis by auto
  qed
qed

lemma check_room_users_invited:
  "check_room_users env us s = (s', a) \<Longrightarrow>
     set (room_users_invited s') = set (room_users_invited s) \<union> {v. Invite (room s) v \<in> set a}"
proof (induction us arbitrary: s s' a)
  case Nil
  then show ?case by simp
next
  case (Cons u us)
  obtain s1 a1 where 1: "check_room_user env u s = (s1, a1)" by (cases "check_room_user env u s")
  obtain s2 a2 where 2: "check_room_users env us s1 = (s2, a2)" by (cases "check_room_users env us s1")
  from Cons.prems 1 2 have a: "a = a1 @ a2" "s' = s2" by simp_all
  from Cons.IH[OF 2] check_room_user_invited[OF 1] check_room_user_frame[OF 1] a
  show ?case by auto
qed

lemma check_room_users_count:
  "check_room_users env us s = (s', a) \<Longrightarrow> distinct us \<Longrightarrow> count_list a (Invite r v) \<le> 1"
proof (induction us arbitrary: s s' a)
  case Nil
  then show ?case by simp
next
  case (Cons u us)
  obtain s1 a1 where 1: "check_room_user env u s = (s1, a1)" by (cases "check_room_user env u s")
  obtain s2 a2 where 2: "check_room_users env us s1 = (s2, a2)" by (cases "check_room_users env us s1")
  from Cons.prems 1 2 have a: "a = a1 @ a2" by simp
  from Cons.prems have d: "distinct us" "u \<notin> set us" by simp_all
  show ?case
  proof (cases "Invite r v \<in> set a1")
    case True
    from check_room_user_invites[OF 1 True] have "v = u" by simp
    with d check_room_users_invites[OF 2] have "Invite r v \<notin> set a2" by blast
    then have "count_list a2 (Invite r v) = 0" by (simp add: count_list_0_iff)
    with a check_room_user_count[OF 1, of r v] show ?thesis by simp
  next
    case False
    then have "count_list a1 (Invite r v) = 0" by (simp add: count_list_0_iff)
    with a Cons.IH[OF 2 d(1)] show ?thesis by simp
  qed
qed

lemma muc_online_cases:
  assumes "muc_online env s p = (e, s', a)"
  obtains
    (joined) "s' = jid_entered_room env (muc_jid p) s" "\<forall>r v. Invite r v \<notin> set a"
  | (raised) s1 where "room_config env s = (e, s1, a)" "s' = s1" "e \<noteq> None"
  | (checked) s1 a1 a2 a3 where "room_config env s = (None, s1, a1)"
      "check_room_users env (room_users s1) (s1\<lparr>muc_ready := True\<rparr>) = (s', a3)"
      "a = a1 @ a2 @ a3" "\<forall>r v. Invite r v \<notin> set a2"
proof (cases "pres_from p = fmt (room s) @ ''/'' @ nick s")
  case False
  with assms joined show ?thesis by (auto simp: muc_online_def)
next
  case True
  obtain e1 s1 a1 where rc: "room_config env s = (e1, s1, a1)" by (cases "room_config env s")
  show ?thesis
  proof (cases e1)
    case (Some x)
    with assms True rc raised show ?thesis by (auto simp: muc_online_def)
  next
    case None
    obtain s3 a3 where ch: "check_room_users env (room_users s1) (s1\<lparr>muc_ready := True\<rparr>) = (s3, a3)"
      by (cases "check_room_users env (room_users s1) (s1\<lparr>muc_ready := True\<rparr>)")
    from assms True rc None ch
    have "s' = s3" and "a = a1 @ [SendMessage (room s1) (nick s1 @ '' is here!'') ''groupchat'']
        @ [SendPresence (pres_from p), Log Info (''People in MUC room: '' @ join '', '' (keys (rooms env)))] @ a3"
      by (auto simp: muc_online_def Let_def)
    with rc None ch checked[of s1 a1 a3 "[SendMessage (room s1) (nick s1 @ '' is here!'') ''groupchat'']
        @ [SendPresence (pres_from p), Log Info (''People in MUC room: '' @ join '', '' (keys (rooms env)))]"]
    show ?thesis by simp
  qed
qed

lemma muc_online_frame:
  assumes "muc_online env s p = (e, s', a)"
  shows "room_users s' = room_users s \<and> room s' = room s \<and> room_admins s' = room_admins s"
  using assms
proof (cases rule: muc_online_cases)
  case joined
  then show ?thesis by (simp add: jid_entered_room_def update_room_users_last_seen_def)
next
  case (raised s1)
  then show ?thesis using room_config_fields by blast
next
  case (checked s1 a1 a2 a3)
  from room_config_fields[OF checked(1)] check_room_users_frame[OF checked(2)]
  show ?thesis by simp
qed

lemma muc_online_invites:
  assumes "muc_online env s p = (e, s', a)" and "Invite r v \<in> set a"
  shows "v \<in> set (room_users s) \<and> r = room s \<and> \<not> is_jid_in_room env v
         \<and> v \<notin> set (room_users_invited s)"
  using assms(1)
proof (cases rule: muc_online_cases)
  case joined
  with assms(2) show ?thesis by simp
next
  case (raised s1)
  with assms(2) room_config_no_invite show ?thesis by blast
next
  case (checked s1 a1 a2 a3)
  from checked(3,4) assms(2) room_config_no_invite[OF checked(1)] have "Invite r v \<in> set a3" by auto
  from check_room_users_invites[OF checked(2) this] room_config_fields[OF checked(1)]
  show ?thesis by simp
qed

lemma muc_online_invited:
  assumes "muc_online env s p = (e, s', a)"
  shows "set (room_users_invited s') = set (room_users_invited s) \<union> {v. Invite (room s) v \<in> set a}"
  using assms
proof (cases rule: muc_online_cases)
  case joined
  then show ?thesis by (simp add: jid_entered_room_def update_room_users_last_seen_def)
next
  case (raised s1)
  with room_config_no_invite[OF raised(1)] room_config_fields[OF raised(1)] show ?thesis by simp
next
  case (checked s1 a1 a2 a3)
  from check_room_users_invited[OF checked(2)] room_config_fields[OF checked(1)]
    room_config_no_invite[OF checked(1)] checked(3,4)
  show ?thesis by auto
qed

lemma muc_online_count:
  assumes "muc_online env s p = (e, s', a)" and "distinct (room_users s)"
  shows "count_list a (Invite r v) \<le> 1"
  using assms(1)
proof (cases rule: muc_online_cases)
  case joined
  then have "count_list a (Invite r v) = 0" by (simp add: count_list_0_iff)
  then show ?thesis by simp
next
  case (raised s1)
  with room_config_no_invite[OF raised(1)] have "count_list a (Invite r v) = 0"
    by (simp add: count_list_0_iff)
  then show ?thesis by simp
next
  case (checked s1 a1 a2 a3)
  from room_config_no_invite[OF checked(1)] have 1: "count_list a1 (Invite r v) = 0"
    by (simp add: count_list_0_iff)
  from checked(4) have 2: "count_list a2 (Invite r v) = 0" by (simp add: count_list_0_iff)
  from assms(2) room_config_fields[OF checked(1)] have "distinct (room_users s1)" by simp
  from check_room_users_count[OF checked(2) this] 1 2 checked(3) show ?thesis by simp
qed

lemma muc_offline_frame:
  "muc_offline env s p = (e, s', a) \<Longrightarrow>
     room_users s' = room_users s \<and> room_users_invited s' = room_users_invited s"
  by (auto simp: muc_offline_def jid_left_room_def update_room_users_last_seen_def)

lemma handle_room_event_inv:
  assumes "set (room_users_invited s) \<subseteq> set (room_users s)"
  shows "set (room_users_invited (handle_room_event ev s)) \<subseteq> set (room_users (handle_room_event ev s))"
proof (cases ev)
  case (Online env p)
  obtain e s' a where m: "muc_online env s p = (e, s', a)" by (cases "muc_online env s p")
  from muc_online_invited[OF m] muc_online_invites[OF m] muc_online_frame[OF m] assms
  have "set (room_users_invited s') \<subseteq> set (room_users s')" by auto
  with Online m show ?thesis by simp
next
  case (Offline env p)
  obtain e s' a where m: "muc_offline env s p = (e, s', a)" by (cases "muc_offline env s p")
  from muc_offline_frame[OF m] assms Offline m show ?thesis by simp
qed

lemma handle_room_events_inv:
  "set (room_users_invited s) \<subseteq> set (room_users s) \<Longrightarrow>
   set (room_users_invited (handle_room_events evs s)) \<subseteq> set (room_users (handle_room_events evs s))"
  unfolding handle_room_events_def
  by (induction evs arbitrary: s) (simp_all add: handle_room_event_inv)

text \<open>
  C1. After every load of the configuration that returns, and after every room presence
  event handled from then on (the bot's own presence, which runs the reconciliation, or
  another occupant's), the invited identities are among the configured room members:
  \<open>_load_config\<close> intersects \<open>room_users_invited\<close> with the new \<open>room_users\<close>, and
  \<open>muc_online\<close> adds to it only users it takes from \<open>room_users\<close>.
\<close>

theorem invited_subset_room_users:
  assumes "load_config cfg ludolph_db init s0 = (None, s)"
  shows "set (room_users_invited (handle_room_events evs s)) \<subseteq> set (room_users (handle_room_events evs s))"
  using load_config_invited[OF assms] by (rule handle_room_events_inv)

theorem invited_subset_room_users_witness:
  "load_config example_config no_db False stale = (None, loaded)
   \<and> set (room_users_invited (handle_room_events
        [Online example_env own_presence, Offline example_env alice_presence] loaded))
     \<subseteq> set (room_users (handle_room_events
        [Online example_env own_presence, Offline example_env alice_presence] loaded))"
proof -
  have h: "load_config example_config no_db False stale = (None, loaded)"
    by (rule load_example)
  from invited_subset_room_users[OF h] h show ?thesis by simp
qed

text \<open>
  C5. Two runs of \<open>muc_online\<close> in a row, the second on the bot the first left and with
  the same occupants in the room, invite no identity twice: an identity in the invited set
  after the first run is not invited by the second, an identity present in the room is
  invited by neither, and only configured room members are invited.
\<close>

theorem no_duplicate_invitations:
  assumes "distinct (room_users s)"
      and "rooms env2 = rooms env1"
      and "muc_online env1 s p1 = (e1, s1, a1)"
      and "muc_online env2 s1 p2 = (e2, s2, a2)"
  shows "count_list (a1 @ a2) (Invite r u) \<le> 1
       \<and> (u \<in> set (room_users_invited s1) \<longrightarrow> Invite r u \<notin> set a2)
       \<and> (is_jid_in_room env1 u \<longrightarrow> Invite r u \<notin> set (a1 @ a2))
       \<and> (Invite r u \<in> set (a1 @ a2) \<longrightarrow> u \<in> set (room_users s))"
proof -
  note f1 = muc_online_frame[OF assms(3)]
  have in2: "is_jid_in_room env2 u = is_jid_in_room env1 u"
    by (simp add: is_jid_in_room_def assms(2))
  have c: "count_list (a1 @ a2) (Invite r u) \<le> 1"
  proof (cases "Invite r u \<in> set a1")
    case True
    from muc_online_invites[OF assms(3) True] have "r = room s" by simp
    with True muc_online_invited[OF assms(3)] have "u \<in> set (room_users_invited s1)" by simp
    with muc_online_invites[OF assms(4)] have "Invite r u \<notin> set a2" by blast
    then have "count_list a2 (Invite r u) = 0" by (simp add: count_list_0_iff)
    with muc_online_count[OF assms(3,1), of r u] show ?thesis by simp
  next
    case False
    then have "count_list a1 (Invite r u) = 0" by (simp add: count_list_0_iff)
    moreover from f1 assms(1) have "distinct (room_users s1)" by simp
    ultimately show ?thesis using muc_online_count[OF assms(4), of r u] by simp
  qed
  from muc_online_invites[OF assms(3)] muc_online_invites[OF assms(4)] in2 f1 c
  show ?thesis by auto
qed

theorem no_duplicate_invitations_witness:
  "distinct (room_users loaded)
   \<and> rooms example_env = rooms example_env
   \<and> Invite (Some ''ops@conference.example.com'') ''carol@example.com''
       \<in> set (snd (snd (muc_online example_env loaded own_presence)))
   \<and> count_list
        (snd (snd (muc_online example_env loaded own_presence))
         @ snd (snd (muc_online example_env
                  (fst (snd (muc_online example_env loaded own_presence))) own_presence)))
        (Invite (Some ''ops@conference.example.com'') ''carol@example.com'') \<le> 1"
proof -
  have d: "distinct (room_users loaded)" by (simp add: loaded_def)
  have r: "rooms example_env = rooms example_env" by simp
  have i: "Invite (Some ''ops@conference.example.com'') ''carol@example.com''
       \<in> set (snd (snd (muc_online example_env loaded own_presence)))"
    by (simp add: example_defs online_defs)
  have 1: "muc_online example_env loaded own_presence
     = (fst (muc_online example_env loaded own_presence),
        fst (snd (muc_online example_env loaded own_presence)),
        snd (snd (muc_online example_env loaded own_presence)))" by simp
  have 2: "muc_online example_env (fst (snd (muc_online example_env loaded own_presence))) own_presence
     = (fst (muc_online example_env (fst (snd (muc_online example_env loaded own_presence))) own_presence),
        fst (snd (muc_online example_env (fst (snd (muc_online example_env loaded own_presence))) own_presence)),
        snd (snd (muc_online example_env (fst (snd (muc_online example_env loaded own_presence))) own_presence)))"
    by simp
  from no_duplicate_invitations[OF d r 1 2,
      of "Some ''ops@conference.example.com''" "''carol@example.com''"] d i
  show ?thesis by simp
qed

subsection \<open>Messages\<close>

lemma message_unknown_command:
  "msg_type msg \<in> set types \<Longrightarrow> split_ws (msg_body msg) = w # ws \<Longrightarrow> get_command d (strip w) = None
   \<Longrightarrow> message d msg types = Inr (Replied (not_understood (msg_body msg)), [])"
  by (simp add: message_def)

lemma muc_message_after_blank:
  "muc_message example_table (loaded\<lparr>muc_ready := True\<rparr>)
     \<lparr>msg_type = ''groupchat'', msg_body = ''Ludolph: help'',
      msg_from = ''ops@conference.example.com/alice'', msg_mucnick = ''alice'',
      msg_mucroom = ''ops@conference.example.com''\<rparr>
   = Inr (Output (Some ''usage''),
          [Log Info ''Command ludolph.plugins.base.help finished in 0.01 seconds''])"
  by (simp add: muc_message_def loaded_def example_table_def startswith_def get_jid_def truthy_def
      bare_def lstrip_chars_def lstrip_def message_def split_ws_def isspace_def strip_def help_cmd_def)

text \<open>
  C2. A direct message whose first word is no command is answered with the fixed reply,
  as \<open>message_unknown_command\<close> shows for every body that has a word. On an empty body
  and on a body of whitespace \<open>split()[0]\<close> raises \<open>IndexError\<close> instead: here the
  handler raises where the reply is promised.
\<close>

theorem message_empty_body_raises:
  "message d \<lparr>msg_type = ''chat'', msg_body = '''', msg_from = ''alice@example.com/home'',
       msg_mucnick = '''', msg_mucroom = ''''\<rparr> [''chat'', ''normal''] = Inl IndexError
   \<and> message d \<lparr>msg_type = ''chat'', msg_body = ''   '', msg_from = ''alice@example.com/home'',
       msg_mucnick = '''', msg_mucroom = ''''\<rparr> [''chat'', ''normal''] = Inl IndexError"
  by (simp add: message_def split_ws_def isspace_def)

text \<open>
  C3. A room message is handled only when it starts with the nickname and a colon and its
  sender resolves. The prefix is then removed with \<open>lstrip(nick)\<close>, which drops every
  leading character that occurs in \<open>Ludolph:\<close>, so that it eats into a command written
  right after the colon: \<open>Ludolph:help\<close> is dispatched as \<open>elp\<close>, and answered with the
  reply for an unknown command although \<open>help\<close> is registered.
\<close>

theorem muc_message_strips_command_letters:
  "muc_message example_table (loaded\<lparr>muc_ready := True\<rparr>)
     \<lparr>msg_type = ''groupchat'', msg_body = ''Ludolph:help'',
      msg_from = ''ops@conference.example.com/alice'', msg_mucnick = ''alice'',
      msg_mucroom = ''ops@conference.example.com''\<rparr>
   = Inr (Replied (not_understood ''elp''), [])"
  by (simp add: muc_message_def loaded_def example_table_def startswith_def get_jid_def truthy_def
      bare_def lstrip_chars_def lstrip_def message_def split_ws_def isspace_def strip_def)

subsection \<open>Greetings\<close>

text \<open>
  C4, as the code has it. \<open>muc_online\<close> greets every occupant but the bot itself and
  \<open>muc_offline\<close> takes leave of every occupant, whether the room is ready or not, and
  neither changes \<open>_muc_ready\<close>; only \<open>muc_message\<close> tests \<open>_muc_ready\<close>, and returns
  without a reply before the room is ready.
\<close>

theorem greeting_not_gated:
  "(pres_from p \<noteq> fmt (room s) @ ''/'' @ nick s \<longrightarrow>
      SendMessage (Some (bare (pres_from p))) (''Hello '' @ muc_nick p @ ''!'') ''groupchat''
        \<in> set (snd (snd (muc_online env s p)))
      \<and> muc_ready (fst (snd (muc_online env s p))) = muc_ready s)
   \<and> SendMessage (Some (bare (pres_from p))) (''Bye bye '' @ muc_nick p) ''groupchat''
        \<in> set (snd (snd (muc_offline env s p)))
   \<and> muc_ready (fst (snd (muc_offline env s p))) = muc_ready s
   \<and> (\<not> muc_ready s \<longrightarrow> muc_message d s msg = Inr (NoResponse, []))"
  by (simp add: muc_offline_def muc_online_def jid_left_room_def jid_entered_room_def
      update_room_users_last_seen_def muc_message_def)

theorem greeting_not_gated_witness:
  "pres_from alice_presence \<noteq> fmt (room loaded) @ ''/'' @ nick loaded
   \<and> \<not> muc_ready loaded
   \<and> SendMessage (Some (bare (pres_from alice_presence))) (''Hello '' @ muc_nick alice_presence @ ''!'')
        ''groupchat'' \<in> set (snd (snd (muc_online example_env loaded alice_presence)))
   \<and> muc_message example_table loaded
        \<lparr>msg_type = ''groupchat'', msg_body = ''Ludolph: help'',
         msg_from = ''ops@conference.example.com/alice'', msg_mucnick = ''alice'',
         msg_mucroom = ''ops@conference.example.com''\<rparr> = Inr (NoResponse, [])"
  using greeting_not_gated[of alice_presence loaded example_env example_table
      "\<lparr>msg_type = ''groupchat'', msg_body = ''Ludolph: help'',
         msg_from = ''ops@conference.example.com/alice'', msg_mucnick = ''alice'',
         msg_mucroom = ''ops@conference.example.com''\<rparr>"]
  by (simp add: example_defs fmt_def)

text \<open>
  C4 as stated fails: before the room is ready, alice entering is greeted and alice
  leaving is taken leave of.
\<close>

theorem greeting_before_ready_counterexample:
  "\<not> muc_ready loaded
   \<and> SendMessage (Some ''ops@conference.example.com'') ''Hello alice!'' ''groupchat''
       \<in> set (snd (snd (muc_online example_env loaded alice_presence)))
   \<and> SendMessage (Some ''ops@conference.example.com'') ''Bye bye alice'' ''groupchat''
       \<in> set (snd (snd (muc_offline example_env loaded alice_presence)))"
  by (simp add: example_defs muc_online_def muc_offline_def fmt_def bare_def)

subsection \<open>Room configuration\<close>

text \<open>
  C6, as the code has it. The member list pushed to the room holds \<open>owner\<close> for the
  bot's bare JID and, for every configured room member, \<open>admin\<close> when it is a configured
  room admin and \<open>member\<close> otherwise; it holds nothing else.
\<close>

theorem query_items_affiliations:
  "snd (room_members env s) = [SetAffiliations (room s) (query_items s)]
   \<and> ((a, j) \<in> set (query_items s) \<longleftrightarrow>
        (a = ''owner'' \<and> j = boundjid_bare s)
        \<or> (j \<in> set (room_users s) \<and> a = (if j \<in> set (room_admins s) then ''admin'' else ''member'')))"
  by (auto simp: room_members_def query_items_def)

theorem query_items_affiliations_witness:
  "(''owner'', ''ludolph@example.com'') \<in> set (query_items loaded)
   \<and> (''admin'', ''alice@example.com'') \<in> set (query_items loaded)
   \<and> (''member'', ''bob@example.com'') \<in> set (query_items loaded)
   \<and> (''member'', ''alice@example.com'') \<notin> set (query_items loaded)"
  using query_items_affiliations[of example_env loaded "''owner''" "''ludolph@example.com''"]
    query_items_affiliations[of example_env loaded "''admin''" "''alice@example.com''"]
    query_items_affiliations[of example_env loaded "''member''" "''bob@example.com''"]
    query_items_affiliations[of example_env loaded "''member''" "''alice@example.com''"]
  by (simp add: loaded_def)

text \<open>
  C6 as stated fails: a configured room admin who is not among the room members is given
  no affiliation at all.
\<close>

theorem room_admin_outside_members_counterexample:
  "''erin@example.com'' \<in> set (room_admins misconfigured)
   \<and> (\<forall>a. (a, ''erin@example.com'') \<notin> set (query_items misconfigured))"
  by (simp add: misconfigured_def loaded_def query_items_def)

lemma set_policy_values:
  "set_policy a b f = (None, f') \<Longrightarrow>
     map_of f' ''muc#roomconfig_membersonly'' = Some (FBool a)
     \<and> map_of f' ''members_by_default'' = Some (FBool b)"
  by (auto simp: set_policy_def set_value_def map_of_od_set
      split: if_splits)

lemma set_policy_succeeds:
  "''muc#roomconfig_membersonly'' \<in> set (keys f) \<Longrightarrow> ''members_by_default'' \<in> set (keys f)
   \<Longrightarrow> \<exists>f'. set_policy a b f = (None, f')"
  by (simp add: set_policy_def set_value_def keys_od_set)

text \<open>
  C7. Every room configuration that \<open>_room_config\<close> pushes has members-only true and
  members-by-default false when the configured room member set is not empty, and
  members-only false and members-by-default true when it is empty; and a configuration is
  pushed whenever the room returns a form with these two fields.
\<close>

theorem room_config_policy:
  assumes "room_config env s = (e, s', acts)"
  shows "(SetRoomConfig r f \<in> set acts \<longrightarrow>
           (if room_users s \<noteq> []
            then map_of f ''muc#roomconfig_membersonly'' = Some (FBool True)
                 \<and> map_of f ''members_by_default'' = Some (FBool False)
            else map_of f ''muc#roomconfig_membersonly'' = Some (FBool False)
                 \<and> map_of f ''members_by_default'' = Some (FBool True)))
       \<and> (getRoomConfig env = Some f0 \<and> ''muc#roomconfig_membersonly'' \<in> set (keys f0)
            \<and> ''members_by_default'' \<in> set (keys f0)
          \<longrightarrow> e = None \<and> (\<exists>f'. SetRoomConfig (room s) f' \<in> set acts))"
proof (intro conjI impI)
  assume push: "SetRoomConfig r f \<in> set acts"
  show "if room_users s \<noteq> []
        then map_of f ''muc#roomconfig_membersonly'' = Some (FBool True)
             \<and> map_of f ''members_by_default'' = Some (FBool False)
        else map_of f ''muc#roomconfig_membersonly'' = Some (FBool False)
             \<and> map_of f ''members_by_default'' = Some (FBool True)"
  proof (cases "room_users s \<noteq> []")
    case True
    with assms push have "set_policy True False (the (getRoomConfig env)) = (None, f)"
      by (auto simp: room_config_def Let_def room_members_def split: option.splits prod.splits)
    from set_policy_values[OF this] True show ?thesis by simp
  next
    case False
    with assms push have "set_policy False True (the (getRoomConfig env)) = (None, f)"
      by (auto simp: room_config_def Let_def room_members_def split: option.splits prod.splits)
    from set_policy_values[OF this] False show ?thesis by simp
  qed
next
  assume h: "getRoomConfig env = Some f0 \<and> ''muc#roomconfig_membersonly'' \<in> set (keys f0)
            \<and> ''members_by_default'' \<in> set (keys f0)"
  then obtain f1 f2 where "set_policy True False f0 = (None, f1)" "set_policy False True f0 = (None, f2)"
    using set_policy_succeeds by blast
  with h assms show "e = None" "\<exists>f'. SetRoomConfig (room s) f' \<in> set acts"
    by (auto simp: room_config_def Let_def split: if_splits)
qed

theorem room_config_policy_witness:
  "SetRoomConfig (Some ''ops@conference.example.com'')
       [(''muc#roomconfig_membersonly'', FBool True), (''members_by_default'', FBool False)]
     \<in> set (snd (snd (room_config example_env loaded)))
   \<and> room_users loaded \<noteq> []
   \<and> map_of [(''muc#roomconfig_membersonly'', FBool True), (''members_by_default'', FBool False)]
        ''muc#roomconfig_membersonly'' = Some (FBool True)
   \<and> map_of [(''muc#roomconfig_membersonly'', FBool True), (''members_by_default'', FBool False)]
        ''members_by_default'' = Some (FBool False)"
proof -
  have p: "SetRoomConfig (Some ''ops@conference.example.com'')
       [(''muc#roomconfig_membersonly'', FBool True), (''members_by_default'', FBool False)]
     \<in> set (snd (snd (room_config example_env loaded)))"
    by (simp add: example_defs online_defs)
  have n: "room_users loaded \<noteq> []" by (simp add: loaded_def)
  have 1: "room_config example_env loaded
     = (fst (room_config example_env loaded), fst (snd (room_config example_env loaded)),
        snd (snd (room_config example_env loaded)))" by simp
  from room_config_policy[OF 1, of "Some ''ops@conference.example.com''"
      "[(''muc#roomconfig_membersonly'', FBool True), (''members_by_default'', FBool False)]"] p n
  show ?thesis by simp
qed

subsection \<open>Plugins\<close>

lemma disable_plugins_Some: "fst (disable_plugins (Some ps) ks reg) = None"
proof (induction ks arbitrary: reg)
  case Nil
  then show ?case by simp
next
  case (Cons k ks)
  have 1: "fst (disable_plugins (Some ps) ks reg) = None" by (rule Cons.IH)
  have 2: "fst (disable_plugins (Some ps) ks (od_del k reg)) = None" by (rule Cons.IH)
  show ?case
  proof (cases "disable_plugins (Some ps) ks (od_del k reg)")
    case (fields e r a)
    with 2 have "e = None" by simp
    with fields 1 show ?thesis by simp
  qed
qed

lemma load_plugin_other:
  assumes "plugin_module q \<noteq> m" and "load_plugin cfg init q reg = (reg', a)"
  shows "map_of reg' m = map_of reg m"
  using assms
  by (auto simp: load_plugin_def Let_def map_of_od_set map_of_od_del split: if_splits sum.splits)

lemma init_plugins_other:
  "m \<notin> set (map plugin_module ps) \<Longrightarrow> init_plugins cfg init ps reg = (reg', a)
   \<Longrightarrow> map_of reg' m = map_of reg m"
proof (induction ps arbitrary: reg reg' a)
  case Nil
  then show ?case by simp
next
  case (Cons q ps)
  obtain r1 a1 where 1: "load_plugin cfg init q reg = (r1, a1)" by (cases "load_plugin cfg init q reg")
  obtain r2 a2 where 2: "init_plugins cfg init ps r1 = (r2, a2)" by (cases "init_plugins cfg init ps r1")
  from Cons.prems 1 2 have "reg' = r2" by simp
  moreover from Cons.prems(1) have "plugin_module q \<noteq> m" "m \<notin> set (map plugin_module ps)" by auto
  ultimately show ?case using Cons.IH[OF _ 2] load_plugin_other[OF _ 1] by simp
qed

lemma load_plugin_raises:
  assumes "construct cfg p (\<not> init \<and> plugin_module p \<in> set (keys reg)) = Inl ex"
      and "load_plugin cfg init p reg = (reg', a)"
  shows "map_of reg' (plugin_module p) = (if init then map_of reg (plugin_module p) else None)
       \<and> Log Critical (''Could not load plugin: '' @ plugin_module p) \<in> set a
       \<and> LogException ex \<in> set a"
proof (cases "init \<or> plugin_module p \<notin> set (keys reg)")
  case True
  with assms(1) have "construct cfg p False = Inl ex" by auto
  with True assms(2) show ?thesis by (auto simp: load_plugin_def Let_def keys_dom)
next
  case False
  with assms(1) have "construct cfg p True = Inl ex" by auto
  with False assms(2) show ?thesis by (auto simp: load_plugin_def Let_def map_of_od_del)
qed

lemma load_plugin_returns:
  assumes "construct cfg p (\<not> init \<and> plugin_module p \<in> set (keys reg)) = Inr obj"
      and "load_plugin cfg init p reg = (reg', a)"
  shows "map_of reg' (plugin_module p) = Some (Plugin obj)"
proof (cases "init \<or> plugin_module p \<notin> set (keys reg)")
  case True
  with assms(1) have "construct cfg p False = Inr obj" by auto
  with True assms(2) show ?thesis by (auto simp: load_plugin_def Let_def map_of_od_set)
next
  case False
  with assms(1) have "construct cfg p True = Inr obj" by auto
  with False assms(2) show ?thesis by (auto simp: load_plugin_def Let_def map_of_od_set)
qed

lemma init_plugins_each:
  assumes "distinct (map plugin_module ps)" and "q \<in> set ps"
      and "init_plugins cfg init ps reg = (reg', a)"
  shows "(construct cfg q (\<not> init \<and> plugin_module q \<in> set (keys reg)) = Inl ex \<longrightarrow>
            map_of reg' (plugin_module q) = (if init then map_of reg (plugin_module q) else None)
            \<and> Log Critical (''Could not load plugin: '' @ plugin_module q) \<in> set a
            \<and> LogException ex \<in> set a)
       \<and> (construct cfg q (\<not> init \<and> plugin_module q \<in> set (keys reg)) = Inr obj \<longrightarrow>
            map_of reg' (plugin_module q) = Some (Plugin obj))"
  using assms
proof (induction ps arbitrary: reg reg' a)
  case Nil
  then show ?case by simp
next
  case (Cons x ps)
  obtain r1 a1 where 1: "load_plugin cfg init x reg = (r1, a1)" by (cases "load_plugin cfg init x reg")
  obtain r2 a2 where 2: "init_plugins cfg init ps r1 = (r2, a2)" by (cases "init_plugins cfg init ps r1")
  from Cons.prems(3) 1 2 have eq: "reg' = r2" "a = a1 @ a2" by simp_all
  from Cons.prems(1) have d: "distinct (map plugin_module ps)" "plugin_module x \<notin> set (map plugin_module ps)"
    by simp_all
  show ?case
  proof (cases "q = x")
    case True
    from init_plugins_other[OF d(2) 2] have keep: "map_of r2 (plugin_module x) = map_of r1 (plugin_module x)" .
    show ?thesis
      using True eq keep load_plugin_raises[OF _ 1, of ex] load_plugin_returns[OF _ 1, of obj]
      by auto
  next
    case False
    with Cons.prems(2) have qin: "q \<in> set ps" by simp
    with d(2) have ne: "plugin_module x \<noteq> plugin_module q" by auto
    from load_plugin_other[OF ne 1] have same: "map_of r1 (plugin_module q) = map_of reg (plugin_module q)" .
    then have k: "plugin_module q \<in> set (keys r1) \<longleftrightarrow> plugin_module q \<in> set (keys reg)"
      by (simp add: keys_dom dom_def)
    from Cons.IH[OF d(1) qin 2] k same eq show ?thesis by auto
  qed
qed

text \<open>
  C8. In a load or reload of plugins with pairwise different modules, a plugin whose
  constructor raises does not stop the pass: \<open>_load_plugins\<close> returns, the failure is
  logged, the module of that plugin is not in the registry afterwards, and every plugin of
  the pass whose constructor returns is registered with the object it returned. \<open>reg1\<close>
  is the registry when the loop over the plugins starts; it decides \<open>reinit\<close>.
\<close>

theorem plugin_failure_is_isolated:
  assumes "distinct (map plugin_module ps)" and "p \<in> set ps" and "plugin_module p \<noteq> bot_module"
      and "load_plugins cfg rep s (Some ps) init reg = (e, reg', acts)"
      and "reg1 = (if init then [(bot_module, Bot)]
                   else fst (snd (disable_plugins (Some ps) (keys reg) reg)))"
      and "construct cfg p (\<not> init \<and> plugin_module p \<in> set (keys reg1)) = Inl ex"
  shows "e = None
       \<and> plugin_module p \<notin> set (keys reg')
       \<and> Log Critical (''Could not load plugin: '' @ plugin_module p) \<in> set acts
       \<and> LogException ex \<in> set acts
       \<and> (\<forall>q obj. q \<in> set ps
             \<and> construct cfg q (\<not> init \<and> plugin_module q \<in> set (keys reg1)) = Inr obj
           \<longrightarrow> map_of reg' (plugin_module q) = Some (Plugin obj))"
proof -
  have "\<exists>a1. (if init then (None, [(bot_module, Bot)], [])
      else disable_plugins (Some ps) (keys reg) reg) = (None, reg1, a1)"
  proof (cases init)
    case True
    with assms(5) show ?thesis by simp
  next
    case False
    obtain e0 r0 a0 where d: "disable_plugins (Some ps) (keys reg) reg = (e0, r0, a0)"
      by (cases "disable_plugins (Some ps) (keys reg) reg")
    with disable_plugins_Some[of ps "keys reg" reg] have "e0 = None" by simp
    with d False assms(5) show ?thesis by simp
  qed
  then obtain a1 where dis: "(if init then (None, [(bot_module, Bot)], [])
      else disable_plugins (Some ps) (keys reg) reg) = (None, reg1, a1)" ..
  obtain r2 a2 where ini: "init_plugins cfg init ps reg1 = (r2, a2)"
    by (cases "init_plugins cfg init ps reg1")
  from assms(4) dis ini have res: "e = None" "reg' = r2" "acts = a1 @ a2 @ report_log rep s"
    by (simp_all add: load_plugins_def)
  have absent: "init \<longrightarrow> map_of reg1 (plugin_module p) = None"
    using assms(3,5) by auto
  from init_plugins_each[OF assms(1,2) ini, of ex] assms(6) absent
  have "map_of r2 (plugin_module p) = None"
    and "Log Critical (''Could not load plugin: '' @ plugin_module p) \<in> set a2"
    and "LogException ex \<in> set a2"
    by (auto split: if_splits)
  moreover have "\<forall>q obj. q \<in> set ps
       \<and> construct cfg q (\<not> init \<and> plugin_module q \<in> set (keys reg1)) = Inr obj
       \<longrightarrow> map_of r2 (plugin_module q) = Some (Plugin obj)"
    using init_plugins_each[OF assms(1) _ ini] by blast
  ultimately show ?thesis using res by (auto simp: keys_dom)
qed

theorem plugin_failure_is_isolated_witness:
  "distinct (map plugin_module example_plugins)
   \<and> ''ludolph.plugins.zabbix'' \<notin> set (keys (fst (snd
        (load_plugins example_config example_report loaded (Some example_plugins) True []))))
   \<and> fst (load_plugins example_config example_report loaded (Some example_plugins) True []) = None
   \<and> map_of (fst (snd (load_plugins example_config example_report loaded (Some example_plugins) True [])))
        ''ludolph.plugins.base'' = Some (Plugin ''Base'')"
proof -
  let ?z = "\<lparr>plugin_name = ''zabbix'', plugin_module = ''ludolph.plugins.zabbix'',
       plugin_cls = (\<lambda>c r. Inl (Exception ''connection refused'') :: exn + string),
       plugin_eq = (\<lambda>k. k = ''ludolph.plugins.zabbix'')\<rparr>"
  let ?b = "\<lparr>plugin_name = ''base'', plugin_module = ''ludolph.plugins.base'',
       plugin_cls = (\<lambda>c r. Inr ''Base'' :: exn + string),
       plugin_eq = (\<lambda>k. k = ''ludolph.plugins.base'')\<rparr>"
  let ?r = "load_plugins example_config example_report loaded (Some example_plugins) True []"
  have d: "distinct (map plugin_module example_plugins)" by (simp add: example_plugins_def)
  have m: "?z \<in> set example_plugins" by (simp add: example_plugins_def)
  have mb: "?b \<in> set example_plugins" by (simp add: example_plugins_def)
  have n: "plugin_module ?z \<noteq> bot_module" by (simp add: bot_module_def)
  have l: "?r = (fst ?r, fst (snd ?r), snd (snd ?r))" by simp
  have r1: "[(bot_module, Bot :: string entry)]
     = (if True then [(bot_module, Bot)]
        else fst (snd (disable_plugins (Some example_plugins) (keys []) [])))" by simp
  have c: "construct example_config ?z (\<not> True \<and> plugin_module ?z \<in> set (keys [(bot_module, Bot :: string entry)]))
     = Inl (Exception ''connection refused'')"
    by (simp add: construct_def example_config_def)
  have cb: "construct example_config ?b (\<not> True \<and> plugin_module ?b \<in> set (keys [(bot_module, Bot :: string entry)]))
     = Inr ''Base''"
    by (simp add: construct_def example_config_def)
  note t = plugin_failure_is_isolated[OF d m n l r1 c]
  from t mb cb have "map_of (fst (snd ?r)) (plugin_module ?b) = Some (Plugin ''Base'')"
    by blast
  with t d show ?thesis by simp
qed

subsection \<open>Presence and subscriptions\<close>

text \<open>
  C9. An occupant entering or leaving the room changes the last-seen map at the
  occupant's JID and nothing else of the bot, and the handler's only calls are a log line
  and the greeting or farewell: the invited set and the configured sets stay as they are
  and no member list is pushed.
\<close>

theorem room_presence_frame:
  "snd (muc_offline env s p)
     = (s\<lparr>room_users_last_seen := (room_users_last_seen s)(muc_jid p \<mapsto> now env)\<rparr>,
        [Log Info (presence_text p ''leaving''),
         SendMessage (Some (bare (pres_from p))) (''Bye bye '' @ muc_nick p) ''groupchat''])
   \<and> (pres_from p \<noteq> fmt (room s) @ ''/'' @ nick s \<longrightarrow>
       snd (muc_online env s p)
         = (s\<lparr>room_users_last_seen := (room_users_last_seen s)(muc_jid p \<mapsto> now env)\<rparr>,
            [Log Info (presence_text p ''joining''),
             SendMessage (Some (bare (pres_from p))) (''Hello '' @ muc_nick p @ ''!'') ''groupchat'']))"
  by (simp add: muc_offline_def muc_online_def jid_left_room_def jid_entered_room_def
      update_room_users_last_seen_def)

theorem room_presence_frame_witness:
  "pres_from alice_presence \<noteq> fmt (room loaded) @ ''/'' @ nick loaded
   \<and> room_users_invited (fst (snd (muc_online example_env loaded alice_presence))) = [''bob@example.com'']
   \<and> room_users_last_seen (fst (snd (muc_online example_env loaded alice_presence)))
        ''alice@example.com/home'' = Some 1000
   \<and> room_users_invited (fst (snd (muc_offline example_env loaded alice_presence))) = [''bob@example.com'']"
  using room_presence_frame[of example_env loaded alice_presence]
  by (simp add: example_defs fmt_def)

text \<open>
  C10. A subscription request from an identity outside a non-empty users set is logged
  and not authorized; with an empty users set, or from one of the users, it is handed to
  the automatic authorization.
\<close>

theorem subscription_gate:
  \<open>(users s \<noteq> [] \<and> user \<notin> set (users s) \<longrightarrow>
      handle_new_subscription s user
        = [Log Warning (''User "'' @ user @ ''" is not allowed to subscribe'')])
   \<and> (users s = [] \<or> user \<in> set (users s) \<longrightarrow>
      AutoAuthorize user \<in> set (handle_new_subscription s user))\<close>
  by (auto simp: handle_new_subscription_def)

theorem subscription_gate_witness:
  \<open>users loaded \<noteq> [] \<and> ''mallory@example.com'' \<notin> set (users loaded)
   \<and> handle_new_subscription loaded ''mallory@example.com''
       = [Log Warning ''User "mallory@example.com" is not allowed to subscribe'']
   \<and> AutoAuthorize ''alice@example.com'' \<in> set (handle_new_subscription loaded ''alice@example.com'')\<close>
  using subscription_gate[of loaded "''mallory@example.com''"]
    subscription_gate[of loaded "''alice@example.com''"]
  by (simp add: loaded_def)

end
